theory Spec2Isabelle
  imports Main "HOL-Library.AList"
begin

section \<open>Texts\<close>

text \<open>
  A Python \<open>str\<close> is a sequence of Unicode code points, and \<open>len\<close> counts them.
  \<open>lit\<close> gives the text of a literal written in ASCII.
\<close>

type_synonym str = "nat list"

definition lit :: "string \<Rightarrow> str" where
  "lit s = map of_char s"

section \<open>Exceptions\<close>

text \<open>
  The exception classes the program raises, each with the message it carries.
  \<open>WrongFormatOfField\<close> is the program's own class (a direct subclass of
  \<open>Exception\<close>, so an \<open>except ValueError\<close> clause does not catch it); the others are
  Python's. Messages of exceptions raised inside the standard library are
  abbreviated to a fixed text.
\<close>

datatype error =
    WrongFormatOfField str
  | ValueError str
  | KeyError str
  | AttributeError str
  | OverflowError str

section \<open>The calendar: \<open>datetime.date\<close>\<close>

text \<open>
  A \<open>datetime.date\<close> is a proleptic Gregorian year, month and day. Python only ever
  builds dates that satisfy \<open>valid_date\<close>; the constructor \<open>date_new\<close> raises
  \<open>ValueError\<close> otherwise.
\<close>

record date =
  year :: int
  month :: int
  day :: int

definition MINYEAR :: int where
  "MINYEAR = 1"

definition MAXYEAR :: int where
  "MAXYEAR = 9999"

definition is_leap :: "int \<Rightarrow> bool" where
  "is_leap y = (y mod 4 = 0 \<and> (y mod 100 \<noteq> 0 \<or> y mod 400 = 0))"

definition days_in_month :: "int \<Rightarrow> int \<Rightarrow> int" where
  "days_in_month y m =
     (if m = 2 then (if is_leap y then 29 else 28)
      else if m = 4 \<or> m = 6 \<or> m = 9 \<or> m = 11 then 30
      else 31)"

definition valid_date :: "date \<Rightarrow> bool" where
  "valid_date d =
     (MINYEAR \<le> year d \<and> year d \<le> MAXYEAR \<and>
      1 \<le> month d \<and> month d \<le> 12 \<and>
      1 \<le> day d \<and> day d \<le> days_in_month (year d) (month d))"

definition date_new :: "int \<Rightarrow> int \<Rightarrow> int \<Rightarrow> error + date" where
  "date_new y m d =
     (if \<not> (MINYEAR \<le> y \<and> y \<le> MAXYEAR) then Inl (ValueError (lit ''year is out of range''))
      else if \<not> (1 \<le> m \<and> m \<le> 12) then Inl (ValueError (lit ''month must be in 1..12''))
      else if \<not> (1 \<le> d \<and> d \<le> days_in_month y m)
        then Inl (ValueError (lit ''day is out of range for month''))
      else Inr \<lparr>year = y, month = m, day = d\<rparr>)"

text \<open>\<open>d.replace(year=y)\<close>: a new date built through the checking constructor.\<close>

definition replace_year :: "date \<Rightarrow> int \<Rightarrow> error + date" where
  "replace_year d y = date_new y (month d) (day d)"

text \<open>Days before 1 January of year \<open>y\<close>, and before the first of month \<open>m\<close>.\<close>

definition days_before_year :: "int \<Rightarrow> int" where
  "days_before_year y =
     (let p = y - 1 in p * 365 + p div 4 - p div 100 + p div 400)"

definition days_before_month :: "int \<Rightarrow> int \<Rightarrow> int" where
  "days_before_month y m =
     [0, 31, 59, 90, 120, 151, 181, 212, 243, 273, 304, 334] ! nat (m - 1)
       + (if m > 2 \<and> is_leap y then 1 else 0)"

definition toordinal :: "date \<Rightarrow> int" where
  "toordinal d = days_before_year (year d) + days_before_month (year d) (month d) + day d"

text \<open>\<open>d.weekday()\<close>: Monday is 0 and Sunday is 6.\<close>

definition weekday :: "date \<Rightarrow> int" where
  "weekday d = (toordinal d + 6) mod 7"

text \<open>\<open>a < b\<close> on dates compares year, month and day in that order.\<close>

definition date_lt :: "date \<Rightarrow> date \<Rightarrow> bool" where
  "date_lt a b =
     (year a < year b \<or>
      (year a = year b \<and> (month a < month b \<or> (month a = month b \<and> day a < day b))))"

text \<open>\<open>(a - b).days\<close>.\<close>

definition days_between :: "date \<Rightarrow> date \<Rightarrow> int" where
  "days_between a b = toordinal a - toordinal b"

text \<open>
  \<open>d + timedelta(days=n)\<close> is the date \<open>n\<close> days after \<open>d\<close> (before, when \<open>n\<close> is
  negative); it raises \<open>OverflowError\<close> when that date leaves the supported range.
  It is modelled by stepping one calendar day at a time.
\<close>

definition date_min :: date where
  "date_min = \<lparr>year = MINYEAR, month = 1, day = 1\<rparr>"

definition date_max :: date where
  "date_max = \<lparr>year = MAXYEAR, month = 12, day = 31\<rparr>"

definition next_day :: "date \<Rightarrow> date" where
  "next_day d =
     (if day d < days_in_month (year d) (month d) then d\<lparr>day := day d + 1\<rparr>
      else if month d < 12 then \<lparr>year = year d, month = month d + 1, day = 1\<rparr>
      else \<lparr>year = year d + 1, month = 1, day = 1\<rparr>)"

definition prev_day :: "date \<Rightarrow> date" where
  "prev_day d =
     (if 1 < day d then d\<lparr>day := day d - 1\<rparr>
      else if 1 < month d
        then \<lparr>year = year d, month = month d - 1,
              day = days_in_month (year d) (month d - 1)\<rparr>
      else \<lparr>year = year d - 1, month = 12, day = 31\<rparr>)"

fun days_later :: "nat \<Rightarrow> date \<Rightarrow> error + date" where
  "days_later 0 d = Inr d"
| "days_later (Suc n) d =
     (if d = date_max then Inl (OverflowError (lit ''date value out of range''))
      else days_later n (next_day d))"

fun days_earlier :: "nat \<Rightarrow> date \<Rightarrow> error + date" where
  "days_earlier 0 d = Inr d"
| "days_earlier (Suc n) d =
     (if d = date_min then Inl (OverflowError (lit ''date value out of range''))
      else days_earlier n (prev_day d))"

definition date_add :: "date \<Rightarrow> int \<Rightarrow> error + date" where
  "date_add d n = (if 0 \<le> n then days_later (nat n) d else days_earlier (nat (- n)) d)"

section \<open>Date helpers of the program\<close>

text \<open>
  \<^verbatim>\<open>
  def find_next_weekday(start_date, weekday):
      days_ahead = weekday - start_date.weekday()
      if days_ahead <= 0:
          days_ahead += 7
      return start_date + timedelta(days=days_ahead)
  \<close>
\<close>

definition find_next_weekday :: "date \<Rightarrow> int \<Rightarrow> error + date" where
  "find_next_weekday start_date wd =
     (let days_ahead = wd - weekday start_date;
          days_ahead = (if days_ahead \<le> 0 then days_ahead + 7 else days_ahead)
      in date_add start_date days_ahead)"

text \<open>
  \<^verbatim>\<open>
  def adjust_for_weekend(birthday):
      if birthday.weekday() >= 5:
          return find_next_weekday(birthday, 0)
      return birthday
  \<close>
\<close>

definition adjust_for_weekend :: "date \<Rightarrow> error + date" where
  "adjust_for_weekend birthday =
     (if weekday birthday \<ge> 5 then find_next_weekday birthday 0 else Inr birthday)"

section \<open>Decimal digits\<close>

text \<open>
  \<open>str.isdecimal\<close>, the pattern \<open>\d\<close> and \<open>int\<close> all go by the Unicode decimal
  digits (general category Nd). These come in runs of ten consecutive code points
  with the values 0 to 9; \<open>decimal_starts\<close> lists the first code point of every run
  in Unicode 14.0, the version of the interpreter's tables: ASCII \<open>0\<close> is 48,
  ARABIC-INDIC DIGIT ZERO is 1632, and so on.
\<close>

definition decimal_starts :: "nat list" where
  "decimal_starts =
     [48, 1632, 1776, 1984, 2406, 2534, 2662, 2790, 2918, 3046, 3174, 3302, 3430, 3558,
      3664, 3792, 3872, 4160, 4240, 6112, 6160, 6470, 6608, 6784, 6800, 6992, 7088, 7232,
      7248, 42528, 43216, 43264, 43472, 43504, 43600, 44016, 65296, 66720, 68912, 69734,
      69872, 69942, 70096, 70384, 70736, 70864, 71248, 71360, 71472, 71904, 72016, 72784,
      73040, 73120, 92768, 92864, 93008, 120782, 120792, 120802, 120812, 120822, 123200,
      123632, 125264, 130032]"

definition decimal_value :: "nat \<Rightarrow> int option" where
  "decimal_value c =
     (case List.find (\<lambda>s. s \<le> c \<and> c < s + 10) decimal_starts of
        Some s \<Rightarrow> Some (int (c - s))
      | None \<Rightarrow> None)"

text \<open>One character is a decimal digit: what \<open>\d\<close> matches.\<close>

definition is_decimal :: "nat \<Rightarrow> bool" where
  "is_decimal c = (decimal_value c \<noteq> None)"

text \<open>\<open>s.isdecimal()\<close>: every character is a decimal digit and there is at least one.\<close>

definition isdecimal :: "str \<Rightarrow> bool" where
  "isdecimal s = (s \<noteq> [] \<and> list_all is_decimal s)"

text \<open>The character ranges \<open>[0-9]\<close> and \<open>[1-9]\<close> of a pattern: ASCII only.\<close>

definition is_ascii_digit :: "nat \<Rightarrow> bool" where
  "is_ascii_digit c = (of_char CHR ''0'' \<le> c \<and> c \<le> of_char CHR ''9'')"

definition is_nonzero_digit :: "nat \<Rightarrow> bool" where
  "is_nonzero_digit c = (of_char CHR ''1'' \<le> c \<and> c \<le> of_char CHR ''9'')"

text \<open>
  \<open>int(s)\<close> on a text of decimal digits, possibly after blanks: each digit counts
  with its decimal value.
\<close>

definition digit_val :: "nat \<Rightarrow> int" where
  "digit_val c = (case decimal_value c of Some v \<Rightarrow> v | None \<Rightarrow> 0)"

definition int_of_digits :: "str \<Rightarrow> int" where
  "int_of_digits s = foldl (\<lambda>acc c. 10 * acc + digit_val c) 0 s"

text \<open>
  Writing numbers. \<open>digit_char\<close> is the ASCII digit of a value from 0 to 9;
  \<open>pad2\<close> and \<open>pad4\<close> write a number in two and in four places with leading
  zeros.
\<close>

definition digit_char :: "int \<Rightarrow> nat" where
  "digit_char n = of_char CHR ''0'' + nat n"

definition pad2 :: "int \<Rightarrow> str" where
  "pad2 n = [digit_char (n div 10 mod 10), digit_char (n mod 10)]"

definition pad4 :: "int \<Rightarrow> str" where
  "pad4 n = [digit_char (n div 1000 mod 10), digit_char (n div 100 mod 10),
             digit_char (n div 10 mod 10), digit_char (n mod 10)]"

text \<open>
  The year as \<open>strftime\<close> writes it for \<open>%Y\<close> on Linux (CPython 3.11 with the C
  library's \<open>strftime\<close>): the decimal number without padding, so a year below 1000
  takes fewer than four characters. Years are between 1 and 9999.
\<close>

definition year_text :: "int \<Rightarrow> str" where
  "year_text y =
     (if y < 10 then [digit_char y]
      else if y < 100 then pad2 y
      else if y < 1000 then digit_char (y div 100) # pad2 (y mod 100)
      else pad4 y)"

section \<open>Parsing and formatting dates\<close>

text \<open>
  \<open>datetime.strptime(s, "%d.%m.%Y")\<close> matches the whole of \<open>s\<close> against
  \<^verbatim>\<open>(3[0-1]|[1-2]\d|0[1-9]|[1-9]| [1-9])\.(1[0-2]|0[1-9]|[1-9])\.(\d\d\d\d)\<close>
  and then builds the date through the checking constructor; any failure is a
  \<open>ValueError\<close>. The day and month fields take one or two characters, and the dot
  that follows decides which. Only \<open>\d\<close> admits digits outside ASCII.
\<close>

definition day_field :: "str \<Rightarrow> bool" where
  "day_field f =
     (case f of
        [a] \<Rightarrow> is_nonzero_digit a
      | [a, b] \<Rightarrow>
          (a = of_char CHR ''3'' \<and> (b = of_char CHR ''0'' \<or> b = of_char CHR ''1'')) \<or>
          ((a = of_char CHR ''1'' \<or> a = of_char CHR ''2'') \<and> is_decimal b) \<or>
          (a = of_char CHR ''0'' \<and> is_nonzero_digit b) \<or>
          (a = of_char CHR '' '' \<and> is_nonzero_digit b)
      | _ \<Rightarrow> False)"

definition month_field :: "str \<Rightarrow> bool" where
  "month_field f =
     (case f of
        [a] \<Rightarrow> is_nonzero_digit a
      | [a, b] \<Rightarrow>
          (a = of_char CHR ''1'' \<and>
             (b = of_char CHR ''0'' \<or> b = of_char CHR ''1'' \<or> b = of_char CHR ''2'')) \<or>
          (a = of_char CHR ''0'' \<and> is_nonzero_digit b)
      | _ \<Rightarrow> False)"

definition year_field :: "str \<Rightarrow> bool" where
  "year_field f = (length f = 4 \<and> list_all is_decimal f)"

text \<open>Splitting at the first dot: the text before it and the text after it.\<close>

fun split_dot :: "str \<Rightarrow> (str \<times> str) option" where
  "split_dot [] = None"
| "split_dot (c # cs) =
     (if c = of_char CHR ''.'' then Some ([], cs)
      else (case split_dot cs of None \<Rightarrow> None | Some (f, r) \<Rightarrow> Some (c # f, r)))"

definition strptime_dmY :: "str \<Rightarrow> error + date" where
  "strptime_dmY s =
     (case split_dot s of
        None \<Rightarrow> Inl (ValueError (lit ''time data does not match format''))
      | Some (df, r) \<Rightarrow>
          (case split_dot r of
             None \<Rightarrow> Inl (ValueError (lit ''time data does not match format''))
           | Some (mf, yf) \<Rightarrow>
               if day_field df \<and> month_field mf \<and> year_field yf
               then date_new (int_of_digits yf) (int_of_digits mf) (int_of_digits df)
               else Inl (ValueError (lit ''time data does not match format''))))"

text \<open>
  \<^verbatim>\<open>
  def string_to_date(date_string):
      return datetime.strptime(date_string, "%d.%m.%Y").date()

  def date_to_string(date):
      return date.strftime("%d.%m.%Y")
  \<close>
  \<open>strftime\<close> writes day and month in two places and the year without padding.
\<close>

definition string_to_date :: "str \<Rightarrow> error + date" where
  "string_to_date date_string = strptime_dmY date_string"

definition date_to_string :: "date \<Rightarrow> str" where
  "date_to_string d =
     pad2 (day d) @ lit ''.'' @ pad2 (month d) @ lit ''.'' @ year_text (year d)"

text \<open>
  \<open>re.search(r"\d{2}\.\d{2}\.\d{4}", value)\<close>: the leftmost place where the ten
  characters of the pattern match; \<open>match.group()\<close> is the matched text.
\<close>

definition date_pattern_here :: "str \<Rightarrow> bool" where
  "date_pattern_here s =
     (case s of
        d1 # d2 # p1 # m1 # m2 # p2 # y1 # y2 # y3 # y4 # _ \<Rightarrow>
          is_decimal d1 \<and> is_decimal d2 \<and> p1 = of_char CHR ''.'' \<and>
          is_decimal m1 \<and> is_decimal m2 \<and> p2 = of_char CHR ''.'' \<and>
          is_decimal y1 \<and> is_decimal y2 \<and> is_decimal y3 \<and> is_decimal y4
      | _ \<Rightarrow> False)"

fun search_date_pattern :: "str \<Rightarrow> str option" where
  "search_date_pattern [] = None"
| "search_date_pattern (c # cs) =
     (if date_pattern_here (c # cs) then Some (take 10 (c # cs))
      else search_date_pattern cs)"

section \<open>Fields\<close>

text \<open>
  \<^verbatim>\<open>
  class Field:
      def __init__(self, value): self.value = value
      def __str__(self): return str(self.value)
      def __eq__(self, other):
          if isinstance(other, Field): return self.value == other.value
          return False

  class Name(Field): pass
  \<close>
  A field is its value, so equality of fields is equality of values. \<open>Name\<close> checks
  nothing.
\<close>

datatype Name = Name (name_value: str)

datatype Phone = Phone (phone_value: str)

datatype Birthday = Birthday (birthday_value: "date option")

definition Name_str :: "Name \<Rightarrow> str" where
  "Name_str n = name_value n"

definition Phone_str :: "Phone \<Rightarrow> str" where
  "Phone_str p = phone_value p"

text \<open>
  \<^verbatim>\<open>
  class Phone(Field):
      def __init__(self, value):
          if len(value) == 10 and value.isdecimal():
              super().__init__(value)
          else:
              raise WrongFormatOfField("The phone number should contain 10 numeric characters")
  \<close>
\<close>

definition Phone_init :: "str \<Rightarrow> error + Phone" where
  "Phone_init v =
     (if length v = 10 \<and> isdecimal v then Inr (Phone v)
      else Inl (WrongFormatOfField (lit ''The phone number should contain 10 numeric characters'')))"

text \<open>
  \<^verbatim>\<open>
  class Birthday(Field):
      def __init__(self, value):
          try:
              if value != 'None':
                  pattern = r"\d{2}\.\d{2}\.\d{4}"
                  match = re.search(pattern, value)
                  if match:
                      birthday = string_to_date(match.group())
                  else:
                      raise ValueError
              else:
                  birthday = None
              super().__init__(birthday)
          except ValueError:
              raise ValueError("Invalid date format. Use DD.MM.YYYY")

      def __str__(self):
          if self.value: return date_to_string(self.value)
          else: return 'None'
  \<close>
  Every \<open>ValueError\<close> raised inside is replaced by the one with the fixed message;
  \<open>string_to_date\<close> raises nothing else.
\<close>

definition Birthday_init :: "str \<Rightarrow> error + Birthday" where
  "Birthday_init v =
     (if v \<noteq> (lit ''None'') then
        (case search_date_pattern v of
           Some g \<Rightarrow>
             (case string_to_date g of
                Inr d \<Rightarrow> Inr (Birthday (Some d))
              | Inl (ValueError _) \<Rightarrow> Inl (ValueError (lit ''Invalid date format. Use DD.MM.YYYY''))
              | Inl e \<Rightarrow> Inl e)
         | None \<Rightarrow> Inl (ValueError (lit ''Invalid date format. Use DD.MM.YYYY'')))
      else Inr (Birthday None))"

definition Birthday_str :: "Birthday \<Rightarrow> str" where
  "Birthday_str b = (case birthday_value b of Some d \<Rightarrow> date_to_string d | None \<Rightarrow> (lit ''None''))"

section \<open>Records\<close>

text \<open>
  \<^verbatim>\<open>
  class Record:
      def __init__(self, name, phones = None, birthday = None):
          self.name = Name(name)
          self.phones =[Phone(phone) for phone in phones] if phones else []
          self.birthday = Birthday(birthday) if birthday else None
  \<close>
  The \<open>birthday\<close> attribute is either \<open>None\<close> or a \<open>Birthday\<close> object, whose own
  value is a date or \<open>None\<close>. An absent or empty \<open>phones\<close> argument and an absent or
  empty \<open>birthday\<close> argument are falsy and skip the constructors.
\<close>

record Record =
  name :: Name
  phones :: "Phone list"
  birthday :: "Birthday option"

fun Phone_init_all :: "str list \<Rightarrow> error + Phone list" where
  "Phone_init_all [] = Inr []"
| "Phone_init_all (phone # rest) =
     (case Phone_init phone of
        Inl e \<Rightarrow> Inl e
      | Inr p \<Rightarrow> (case Phone_init_all rest of Inl e \<Rightarrow> Inl e | Inr ps \<Rightarrow> Inr (p # ps)))"

definition Record_init :: "str \<Rightarrow> str list option \<Rightarrow> str option \<Rightarrow> error + Record" where
  "Record_init nm phs bd =
     (case (case phs of
              Some ps \<Rightarrow> if ps \<noteq> [] then Phone_init_all ps else Inr []
            | None \<Rightarrow> Inr []) of
        Inl e \<Rightarrow> Inl e
      | Inr pl \<Rightarrow>
          (case (case bd of
                   Some b \<Rightarrow>
                     if b \<noteq> [] then
                       (case Birthday_init b of Inl e \<Rightarrow> Inl e | Inr x \<Rightarrow> Inr (Some x))
                     else Inr None
                 | None \<Rightarrow> Inr None) of
             Inl e \<Rightarrow> Inl e
           | Inr bo \<Rightarrow> Inr \<lparr>name = Name nm, phones = pl, birthday = bo\<rparr>))"

text \<open>
  The methods that change a record return the outcome of the call together with the
  record as the call leaves it, also when the call raises.
  \<^verbatim>\<open>
      def add_phone(self, phone):
          self.phones.append(Phone(phone))

      def remove_phone(self, phone):
          if phone in self.phones:
              self.phones.remove(phone)
          else:
              raise ValueError(f"Phone number {phone} not found")
  \<close>
  \<open>remove_phone\<close> is modelled for a \<open>Phone\<close> argument, which is what \<open>edit_phone\<close>
  passes to it.
\<close>

definition add_phone :: "Record \<Rightarrow> str \<Rightarrow> (error + unit) \<times> Record" where
  "add_phone r phone =
     (case Phone_init phone of
        Inl e \<Rightarrow> (Inl e, r)
      | Inr p \<Rightarrow> (Inr (), r\<lparr>phones := phones r @ [p]\<rparr>))"

definition remove_phone :: "Record \<Rightarrow> Phone \<Rightarrow> (error + unit) \<times> Record" where
  "remove_phone r phone =
     (if phone \<in> set (phones r) then (Inr (), r\<lparr>phones := remove1 phone (phones r)\<rparr>)
      else (Inl (ValueError ((lit ''Phone number '') @ Phone_str phone @ (lit '' not found''))), r))"

text \<open>
  \<^verbatim>\<open>
      def find_phone(self, number):
          return next((phone for phone in self.phones
                       if phone == Phone(number)), None)
  \<close>
  \<open>Phone(number)\<close> is built when the first stored phone is compared, so an empty
  list gives \<open>None\<close> without validating \<open>number\<close>.
\<close>

definition find_phone :: "Record \<Rightarrow> str \<Rightarrow> error + Phone option" where
  "find_phone r number =
     (if phones r = [] then Inr None
      else (case Phone_init number of
              Inl e \<Rightarrow> Inl e
            | Inr q \<Rightarrow> Inr (List.find (\<lambda>phone. phone = q) (phones r))))"

text \<open>
  \<^verbatim>\<open>
      def edit_phone(self, old_number, new_number):
          phone  = self.find_phone(old_number)
          if not phone :
               raise ValueError(f"Phone number {phone} not found")
          self.add_phone(new_number)
          self.remove_phone(phone)
  \<close>
\<close>

definition edit_phone :: "Record \<Rightarrow> str \<Rightarrow> str \<Rightarrow> (error + unit) \<times> Record" where
  "edit_phone r old_number new_number =
     (case find_phone r old_number of
        Inl e \<Rightarrow> (Inl e, r)
      | Inr None \<Rightarrow> (Inl (ValueError (lit ''Phone number None not found'')), r)
      | Inr (Some phone) \<Rightarrow>
          (case add_phone r new_number of
             (Inl e, r1) \<Rightarrow> (Inl e, r1)
           | (Inr _, r1) \<Rightarrow> remove_phone r1 phone))"

text \<open>
  \<^verbatim>\<open>
      def add_birthday(self, birthday):
          self.birthday = Birthday(birthday)
  \<close>
\<close>

definition add_birthday :: "Record \<Rightarrow> str \<Rightarrow> (error + unit) \<times> Record" where
  "add_birthday r b =
     (case Birthday_init b of
        Inl e \<Rightarrow> (Inl e, r)
      | Inr x \<Rightarrow> (Inr (), r\<lparr>birthday := Some x\<rparr>))"

section \<open>The address book\<close>

text \<open>
  \<open>AddressBook.data\<close> is a dictionary from names to records. A Python dictionary
  keeps its keys in insertion order: it is modelled as an association list, where
  storing under a present key replaces the value in place and under a new key
  appends.
  \<^verbatim>\<open>
      def add_record(self, record: Record):
          if not str(record.name) in self.data.keys():
              self.data[str(record.name)] = record
          else:
              raise ValueError("Record with this name already exists")

      def update_record(self, record:Record):
          if str(record.name) in self.data.keys():
              self.data[str(record.name)] = record
          else:
              raise ValueError(f"Record {record.name} not found")

      def find(self, name):
          if name in self.data.keys():
              return self.data[name]
          else:
               raise ValueError(f"Record {name} not found")

      def check_record(self, record):
          return record in self.data.keys()

      def delete(self, name):
          if name in self.data.keys():
              del self.data[name]
          else:
              raise KeyError(f"Record {name} not found")
  \<close>
\<close>

type_synonym AddressBook = "(str \<times> Record) list"

definition AddressBook_init :: AddressBook where
  "AddressBook_init = []"

definition keys :: "AddressBook \<Rightarrow> str set" where
  "keys book = fst ` set book"

definition add_record :: "AddressBook \<Rightarrow> Record \<Rightarrow> (error + unit) \<times> AddressBook" where
  "add_record book record =
     (if Name_str (name record) \<notin> keys book
      then (Inr (), AList.update (Name_str (name record)) record book)
      else (Inl (ValueError (lit ''Record with this name already exists'')), book))"

definition update_record :: "AddressBook \<Rightarrow> Record \<Rightarrow> (error + unit) \<times> AddressBook" where
  "update_record book record =
     (if Name_str (name record) \<in> keys book
      then (Inr (), AList.update (Name_str (name record)) record book)
      else (Inl (ValueError ((lit ''Record '') @ Name_str (name record) @ (lit '' not found''))), book))"

definition find_record :: "AddressBook \<Rightarrow> str \<Rightarrow> error + Record" where
  "find_record book nm =
     (case map_of book nm of
        Some record \<Rightarrow> Inr record
      | None \<Rightarrow> Inl (ValueError ((lit ''Record '') @ nm @ (lit '' not found''))))"

definition check_record :: "AddressBook \<Rightarrow> str \<Rightarrow> bool" where
  "check_record book record = (record \<in> keys book)"

definition delete_record :: "AddressBook \<Rightarrow> str \<Rightarrow> (error + unit) \<times> AddressBook" where
  "delete_record book nm =
     (if nm \<in> keys book then (Inr (), AList.delete nm book)
      else (Inl (KeyError ((lit ''Record '') @ nm @ (lit '' not found''))), book))"

text \<open>
  \<^verbatim>\<open>
      def get_upcoming_birthdays(self, days=7):
          upcoming_birthdays = []
          today = date.today()
          for key, record in self.data.items():
              if record.birthday.value:
                  birthday_this_year = record.birthday.value.replace(year=today.year)
                  if birthday_this_year < today:
                      birthday_this_year = record.birthday.value.replace(year=today.year + 1)
                  if 0 <= (birthday_this_year - today).days <= days:
                      birthday_this_year = adjust_for_weekend(birthday_this_year)
                      congratulation_date_str = date_to_string(birthday_this_year)
                      upcoming_birthdays.append({"name": key, "birthday": congratulation_date_str})
          return upcoming_birthdays
  \<close>
  \<open>date.today()\<close> is an argument of the model. Each result \<open>{"name": k, "birthday": s}\<close>
  is the pair \<open>(k, s)\<close>. Reading \<open>.value\<close> of a \<open>birthday\<close> attribute that is \<open>None\<close>
  raises \<open>AttributeError\<close>; a raise anywhere ends the loop and the call.
\<close>

fun upcoming_loop ::
  "date \<Rightarrow> int \<Rightarrow> (str \<times> Record) list \<Rightarrow> (str \<times> str) list
     \<Rightarrow> error + (str \<times> str) list" where
  "upcoming_loop today days [] upcoming_birthdays = Inr upcoming_birthdays"
| "upcoming_loop today days ((key, record) # rest) upcoming_birthdays =
     (case birthday record of
        None \<Rightarrow> Inl (AttributeError (lit ''NoneType object has no attribute value''))
      | Some b \<Rightarrow>
          (case birthday_value b of
             None \<Rightarrow> upcoming_loop today days rest upcoming_birthdays
           | Some bd \<Rightarrow>
               (case replace_year bd (year today) of
                  Inl e \<Rightarrow> Inl e
                | Inr this_year \<Rightarrow>
                    (case (if date_lt this_year today then replace_year bd (year today + 1)
                           else Inr this_year) of
                       Inl e \<Rightarrow> Inl e
                     | Inr birthday_this_year \<Rightarrow>
                         if 0 \<le> days_between birthday_this_year today \<and>
                            days_between birthday_this_year today \<le> days
                         then
                           (case adjust_for_weekend birthday_this_year of
                              Inl e \<Rightarrow> Inl e
                            | Inr shifted \<Rightarrow>
                                upcoming_loop today days rest
                                  (upcoming_birthdays @ [(key, date_to_string shifted)]))
                         else upcoming_loop today days rest upcoming_birthdays))))"

definition get_upcoming_birthdays ::
  "AddressBook \<Rightarrow> date \<Rightarrow> int \<Rightarrow> error + (str \<times> str) list" where
  "get_upcoming_birthdays book today days = upcoming_loop today days book []"

section \<open>Notions used to state the properties\<close>

text \<open>
  A history of the address book: the calls of \<open>add_record\<close>, \<open>update_record\<close> and
  \<open>delete\<close> made on it, in order. A call that raises leaves the book as the method
  left it.
\<close>

datatype book_op = AddRecord Record | UpdateRecord Record | Delete str

fun apply_book_op :: "AddressBook \<Rightarrow> book_op \<Rightarrow> AddressBook" where
  "apply_book_op book (AddRecord record) = snd (add_record book record)"
| "apply_book_op book (UpdateRecord record) = snd (update_record book record)"
| "apply_book_op book (Delete nm) = snd (delete_record book nm)"

definition run_book_ops :: "book_op list \<Rightarrow> AddressBook" where
  "run_book_ops ops = foldl apply_book_op AddressBook_init ops"

text \<open>Every key is the name of the record stored under it, and no key occurs twice.\<close>

definition keys_match_names :: "AddressBook \<Rightarrow> bool" where
  "keys_match_names book =
     (distinct (map fst book) \<and> list_all (\<lambda>(k, record). k = Name_str (name record)) book)"

text \<open>
  The occurrence of a birthday that \<open>get_upcoming_birthdays\<close> considers: the
  birthday's month and day in today's year, or in the next year when that date
  is before today.
\<close>

definition occurrence :: "date \<Rightarrow> date \<Rightarrow> error + date" where
  "occurrence today bd =
     (case replace_year bd (year today) of
        Inl e \<Rightarrow> Inl e
      | Inr this_year \<Rightarrow>
          if date_lt this_year today then replace_year bd (year today + 1) else Inr this_year)"

text \<open>
  The congratulation date as the specification words it: a Saturday moves two days
  on and a Sunday one day on, to the following Monday; any other day stays.
\<close>

definition congratulation_date :: "date \<Rightarrow> date" where
  "congratulation_date occ =
     (if weekday occ = 5 then next_day (next_day occ)
      else if weekday occ = 6 then next_day occ
      else occ)"

text \<open>
  A record stored under \<open>key\<close> is reported as the entry \<open>x\<close>: its birthday is
  present, the occurrence exists and lies in the window of \<open>days\<close> days from today,
  and \<open>x\<close> pairs the key with the formatted congratulation date.
\<close>

definition reports :: "date \<Rightarrow> int \<Rightarrow> str \<times> Record \<Rightarrow> str \<times> str \<Rightarrow> bool" where
  "reports today days kr x =
     (case birthday (snd kr) of
        None \<Rightarrow> False
      | Some b \<Rightarrow>
          (case birthday_value b of
             None \<Rightarrow> False
           | Some bd \<Rightarrow>
               (case occurrence today bd of
                  Inl e \<Rightarrow> False
                | Inr occ \<Rightarrow>
                    0 \<le> days_between occ today \<and> days_between occ today \<le> days \<and>
                    x = (fst kr, date_to_string (congratulation_date occ)))))"

text \<open>
  A text that is exactly \<open>DD.MM.YYYY\<close> and written in ASCII digits: the texts for
  which the round trip through \<open>Birthday\<close> is considered.
\<close>

definition ascii_date_text :: "str \<Rightarrow> bool" where
  "ascii_date_text t =
     (case t of
        [d1, d2, p1, m1, m2, p2, y1, y2, y3, y4] \<Rightarrow>
          is_ascii_digit d1 \<and> is_ascii_digit d2 \<and> p1 = of_char CHR ''.'' \<and>
          is_ascii_digit m1 \<and> is_ascii_digit m2 \<and> p2 = of_char CHR ''.'' \<and>
          is_ascii_digit y1 \<and> is_ascii_digit y2 \<and> is_ascii_digit y3 \<and> is_ascii_digit y4
      | _ \<Rightarrow> False)"

section \<open>Evaluating texts\<close>

text \<open>The definitions to unfold when a text function is run on a concrete text.\<close>

lemmas text_eval =
  lit_def is_decimal_def decimal_value_def decimal_starts_def isdecimal_def
  is_ascii_digit_def is_nonzero_digit_def date_pattern_here_def string_to_date_def
  strptime_dmY_def day_field_def month_field_def year_field_def int_of_digits_def
  digit_val_def date_new_def MINYEAR_def MAXYEAR_def days_in_month_def is_leap_def

section \<open>Phone validation\<close>

text \<open>
  C4. \<open>Phone\<close> accepts a text exactly when it has ten characters and all of them are
  decimal digits, in the sense of \<open>str.isdecimal\<close>: the Unicode decimal digits, of
  which \<open>0\<close> to \<open>9\<close> are the ASCII ones. An accepted phone renders back to the text
  it was built from, and every other text is refused with \<open>WrongFormatOfField\<close>.
\<close>

theorem phone_validation:
  "((\<exists>p. Phone_init v = Inr p) \<longleftrightarrow> (length v = 10 \<and> list_all is_decimal v)) \<and>
   (\<forall>p. Phone_init v = Inr p \<longrightarrow> Phone_str p = v) \<and>
   (\<not> (length v = 10 \<and> list_all is_decimal v) \<longrightarrow>
      Phone_init v =
        Inl (WrongFormatOfField (lit ''The phone number should contain 10 numeric characters'')))"
  by (auto simp: Phone_init_def Phone_str_def isdecimal_def)

theorem phone_validation_witness:
  "Phone_init (lit ''0501234567'') = Inr (Phone (lit ''0501234567'')) \<and>
   Phone_str (Phone (lit ''0501234567'')) = lit ''0501234567'' \<and>
   Phone_init [1632, 1633, 1634, 1635, 1636, 1637, 1638, 1639, 1640, 1641]
     = Inr (Phone [1632, 1633, 1634, 1635, 1636, 1637, 1638, 1639, 1640, 1641]) \<and>
   Phone_init (lit ''05012345'') =
     Inl (WrongFormatOfField (lit ''The phone number should contain 10 numeric characters'')) \<and>
   Phone_init (lit ''05O1234567'') =
     Inl (WrongFormatOfField (lit ''The phone number should contain 10 numeric characters''))"
  using phone_validation [of "lit ''0501234567''"]
    phone_validation [of "[1632, 1633, 1634, 1635, 1636, 1637, 1638, 1639, 1640, 1641]"]
    phone_validation [of "lit ''05012345''"] phone_validation [of "lit ''05O1234567''"]
  by (simp add: Phone_init_def Phone_str_def text_eval)

section \<open>The address book keeps one record per name\<close>

lemma set_update_subset: "set (AList.update k v al) \<subseteq> insert (k, v) (set al)"
  by (induction al) auto

lemma keys_match_names_update:
  assumes "keys_match_names book" and "k = Name_str (name record)"
  shows "keys_match_names (AList.update k record book)"
proof -
  from assms(1) have d: "distinct (map fst book)"
    and m: "\<forall>(k, record) \<in> set book. k = Name_str (name record)"
    by (simp_all add: keys_match_names_def list_all_iff)
  from d have "distinct (map fst (AList.update k record book))"
    by (rule distinct_update)
  moreover have "\<forall>(k', r') \<in> set (AList.update k record book). k' = Name_str (name r')"
    using set_update_subset[of k "record" book] m assms(2) by auto
  ultimately show ?thesis by (simp add: keys_match_names_def list_all_iff)
qed

lemma keys_match_names_delete:
  assumes "keys_match_names book"
  shows "keys_match_names (AList.delete k book)"
proof -
  from assms have d: "distinct (map fst book)"
    and m: "\<forall>(k, record) \<in> set book. k = Name_str (name record)"
    by (simp_all add: keys_match_names_def list_all_iff)
  from d have "distinct (map fst (AList.delete k book))"
    by (rule distinct_delete)
  moreover have "\<forall>(k', r') \<in> set (AList.delete k book). k' = Name_str (name r')"
    using m by (auto simp: AList.delete_eq)
  ultimately show ?thesis by (simp add: keys_match_names_def list_all_iff)
qed

lemma keys_match_names_apply:
  assumes "keys_match_names book"
  shows "keys_match_names (apply_book_op book op)"
proof (cases op)
  case (AddRecord r)
  with assms show ?thesis
    by (simp add: add_record_def keys_match_names_update)
next
  case (UpdateRecord r)
  with assms show ?thesis
    by (simp add: update_record_def keys_match_names_update)
next
  case (Delete nm)
  with assms show ?thesis
    by (simp add: delete_record_def keys_match_names_delete)
qed

lemma keys_match_names_foldl:
  "keys_match_names book \<Longrightarrow> keys_match_names (foldl apply_book_op book ops)"
  by (induction ops arbitrary: book) (simp_all add: keys_match_names_apply)

text \<open>
  C9. Whatever calls of \<open>add_record\<close>, \<open>update_record\<close> and \<open>delete\<close> are made on
  an empty address book, in the resulting book every key is the name of the record
  stored under it and no name is stored twice.
\<close>

theorem reachable_keys_match_names: "keys_match_names (run_book_ops ops)"
  unfolding run_book_ops_def
  by (rule keys_match_names_foldl) (simp add: keys_match_names_def AddressBook_init_def)

theorem reachable_keys_match_names_witness:
  "keys_match_names
     (run_book_ops
        [AddRecord \<lparr>name = Name (lit ''Ann''), phones = [], birthday = None\<rparr>,
         AddRecord \<lparr>name = Name (lit ''Bob''), phones = [], birthday = None\<rparr>,
         AddRecord \<lparr>name = Name (lit ''Ann''), phones = [Phone (lit ''0501234567'')], birthday = None\<rparr>,
         UpdateRecord \<lparr>name = Name (lit ''Bob''), phones = [Phone (lit ''0501234567'')], birthday = None\<rparr>,
         Delete (lit ''Ann'')]) \<and>
   run_book_ops
        [AddRecord \<lparr>name = Name (lit ''Ann''), phones = [], birthday = None\<rparr>,
         AddRecord \<lparr>name = Name (lit ''Bob''), phones = [], birthday = None\<rparr>,
         AddRecord \<lparr>name = Name (lit ''Ann''), phones = [Phone (lit ''0501234567'')], birthday = None\<rparr>,
         UpdateRecord \<lparr>name = Name (lit ''Bob''), phones = [Phone (lit ''0501234567'')], birthday = None\<rparr>,
         Delete (lit ''Ann'')]
     = [((lit ''Bob''), \<lparr>name = Name (lit ''Bob''), phones = [Phone (lit ''0501234567'')], birthday = None\<rparr>)]"
  using reachable_keys_match_names
    [of "[AddRecord \<lparr>name = Name (lit ''Ann''), phones = [], birthday = None\<rparr>,
         AddRecord \<lparr>name = Name (lit ''Bob''), phones = [], birthday = None\<rparr>,
         AddRecord \<lparr>name = Name (lit ''Ann''), phones = [Phone (lit ''0501234567'')], birthday = None\<rparr>,
         UpdateRecord \<lparr>name = Name (lit ''Bob''), phones = [Phone (lit ''0501234567'')], birthday = None\<rparr>,
         Delete (lit ''Ann'')]"]
  by (simp add: run_book_ops_def AddressBook_init_def add_record_def update_record_def
      delete_record_def keys_def Name_str_def AList.delete_eq lit_def)

text \<open>
  C8. After \<open>add_record\<close> has succeeded, \<open>find\<close> with the record's name returns that
  record, and adding any record of the same name again raises the duplicate-name
  \<open>ValueError\<close> and leaves the book as it is. In general \<open>add_record\<close> raises that
  error on every book that already has the name.
\<close>

theorem add_then_find:
  "(fst (add_record book record) = Inr () \<longrightarrow>
      find_record (snd (add_record book record)) (Name_str (name record)) = Inr record \<and>
      (\<forall>other. Name_str (name other) = Name_str (name record) \<longrightarrow>
         add_record (snd (add_record book record)) other =
           (Inl (ValueError (lit ''Record with this name already exists'')),
            snd (add_record book record)))) \<and>
   (Name_str (name record) \<in> keys book \<longrightarrow>
      add_record book record = (Inl (ValueError (lit ''Record with this name already exists'')), book))"
  by (auto simp: add_record_def find_record_def keys_def update_conv' dom_update)

theorem add_then_find_witness:
  "fst (add_record [] \<lparr>name = Name (lit ''Ann''), phones = [], birthday = None\<rparr>) = Inr () \<and>
   find_record (snd (add_record [] \<lparr>name = Name (lit ''Ann''), phones = [], birthday = None\<rparr>)) (lit ''Ann'')
     = Inr \<lparr>name = Name (lit ''Ann''), phones = [], birthday = None\<rparr> \<and>
   add_record (snd (add_record [] \<lparr>name = Name (lit ''Ann''), phones = [], birthday = None\<rparr>))
       \<lparr>name = Name (lit ''Ann''), phones = [Phone (lit ''0501234567'')], birthday = None\<rparr>
     = (Inl (ValueError (lit ''Record with this name already exists'')),
        [((lit ''Ann''), \<lparr>name = Name (lit ''Ann''), phones = [], birthday = None\<rparr>)]) \<and>
   add_record [((lit ''Bob''), \<lparr>name = Name (lit ''Bob''), phones = [], birthday = None\<rparr>)]
       \<lparr>name = Name (lit ''Bob''), phones = [Phone (lit ''0501234567'')], birthday = None\<rparr>
     = (Inl (ValueError (lit ''Record with this name already exists'')),
        [((lit ''Bob''), \<lparr>name = Name (lit ''Bob''), phones = [], birthday = None\<rparr>)])"
  using add_then_find [of "[]" "\<lparr>name = Name (lit ''Ann''), phones = [], birthday = None\<rparr>"]
    add_then_find [of "[((lit ''Bob''), \<lparr>name = Name (lit ''Bob''), phones = [], birthday = None\<rparr>)]"
      "\<lparr>name = Name (lit ''Bob''), phones = [Phone (lit ''0501234567'')], birthday = None\<rparr>"]
  by (simp add: add_record_def keys_def Name_str_def lit_def)

section \<open>Editing a phone\<close>

lemma find_eq_Some: "List.find (\<lambda>x. x = q) xs = Some p \<Longrightarrow> p = q \<and> q \<in> set xs"
  by (auto simp: find_Some_iff)

lemma find_eq_mem: "q \<in> set xs \<Longrightarrow> List.find (\<lambda>x. x = q) xs = Some q"
  by (induction xs) auto

lemma find_eq_None: "List.find (\<lambda>x. x = q) xs = None \<longleftrightarrow> q \<notin> set xs"
  by (auto simp: find_None_iff)

lemma count_list_pos: "0 < count_list xs x \<longleftrightarrow> x \<in> set xs"
  using count_list_0_iff [of xs x] by auto

lemma mem_remove1_self: "x \<in> set (remove1 x xs) \<longleftrightarrow> 1 < count_list xs x"
  by (induction xs) (simp_all add: count_list_pos)

lemma find_phone_Some:
  assumes "find_phone r number = Inr (Some p)"
  shows "p = Phone number \<and> p \<in> set (phones r)"
  using assms
  by (auto simp: find_phone_def Phone_init_def split: if_splits dest: find_eq_Some)

text \<open>
  C10. When \<open>edit_phone\<close> raises, the record is exactly as it was before the call.
  It raises when no stored phone equals the old number, and it raises when the new
  number is not a valid phone.
\<close>

theorem edit_phone_failure_keeps_record:
  "(\<forall>e. fst (edit_phone r old_number new_number) = Inl e \<longrightarrow>
      snd (edit_phone r old_number new_number) = r) \<and>
   (find_phone r old_number = Inr None \<longrightarrow>
      fst (edit_phone r old_number new_number) = Inl (ValueError (lit ''Phone number None not found''))) \<and>
   (\<forall>e. Phone_init new_number = Inl e \<longrightarrow>
      (\<exists>e'. fst (edit_phone r old_number new_number) = Inl e'))"
proof (intro conjI allI impI)
  fix e
  assume f: "fst (edit_phone r old_number new_number) = Inl e"
  show "snd (edit_phone r old_number new_number) = r"
  proof (cases "find_phone r old_number")
    case (Inl a)
    then show ?thesis by (simp add: edit_phone_def)
  next
    case (Inr found)
    show ?thesis
    proof (cases found)
      case None
      with Inr show ?thesis by (simp add: edit_phone_def)
    next
      case (Some p)
      with Inr have mem: "p \<in> set (phones r)" using find_phone_Some by blast
      show ?thesis
      proof (cases "Phone_init new_number")
        case (Inl a)
        with Inr Some show ?thesis by (simp add: edit_phone_def add_phone_def)
      next
        case q: (Inr q)
        with Inr Some mem have "fst (edit_phone r old_number new_number) = Inr ()"
          by (simp add: edit_phone_def add_phone_def remove_phone_def)
        with f show ?thesis by simp
      qed
    qed
  qed
next
  assume "find_phone r old_number = Inr None"
  then show "fst (edit_phone r old_number new_number)
      = Inl (ValueError (lit ''Phone number None not found''))"
    by (simp add: edit_phone_def)
next
  fix e
  assume "Phone_init new_number = Inl e"
  then show "\<exists>e'. fst (edit_phone r old_number new_number) = Inl e'"
    by (auto simp: edit_phone_def add_phone_def split: sum.splits option.splits)
qed

theorem edit_phone_failure_keeps_record_witness:
  "edit_phone \<lparr>name = Name (lit ''Ann''), phones = [Phone (lit ''0501234567'')], birthday = None\<rparr>
      (lit ''0671234567'') (lit ''0931234567'')
     = (Inl (ValueError (lit ''Phone number None not found'')),
        \<lparr>name = Name (lit ''Ann''), phones = [Phone (lit ''0501234567'')], birthday = None\<rparr>) \<and>
   edit_phone \<lparr>name = Name (lit ''Ann''), phones = [Phone (lit ''0501234567'')], birthday = None\<rparr>
      (lit ''0501234567'') (lit ''12345'')
     = (Inl (WrongFormatOfField (lit ''The phone number should contain 10 numeric characters'')),
        \<lparr>name = Name (lit ''Ann''), phones = [Phone (lit ''0501234567'')], birthday = None\<rparr>)"
  using edit_phone_failure_keeps_record
      [of "\<lparr>name = Name (lit ''Ann''), phones = [Phone (lit ''0501234567'')], birthday = None\<rparr>"
          "(lit ''0671234567'')" "(lit ''0931234567'')"]
    edit_phone_failure_keeps_record
      [of "\<lparr>name = Name (lit ''Ann''), phones = [Phone (lit ''0501234567'')], birthday = None\<rparr>"
          "(lit ''0501234567'')" "(lit ''12345'')"]
  by (simp add: edit_phone_def find_phone_def add_phone_def Phone_init_def text_eval)

text \<open>
  C6, as stated, fails: when the new number equals the old one, the edit succeeds
  and the old number is still found afterwards.
\<close>

theorem edit_phone_same_number_counterexample:
  "Phone_init (lit ''0501234567'') = Inr (Phone (lit ''0501234567'')) \<and>
   Phone (lit ''0501234567'')
     \<in> set (phones \<lparr>name = Name (lit ''Ann''), phones = [Phone (lit ''0501234567'')], birthday = None\<rparr>) \<and>
   fst (edit_phone \<lparr>name = Name (lit ''Ann''), phones = [Phone (lit ''0501234567'')], birthday = None\<rparr>
          (lit ''0501234567'') (lit ''0501234567'')) = Inr () \<and>
   find_phone
     (snd (edit_phone \<lparr>name = Name (lit ''Ann''), phones = [Phone (lit ''0501234567'')], birthday = None\<rparr>
             (lit ''0501234567'') (lit ''0501234567'')))
     (lit ''0501234567'') = Inr (Some (Phone (lit ''0501234567'')))"
  by (simp add: edit_phone_def find_phone_def add_phone_def remove_phone_def Phone_init_def
      text_eval)

text \<open>
  C6, amended. For a valid old number stored in the record and a valid new number,
  \<open>edit_phone\<close> succeeds: it appends the new phone and removes the first stored
  phone equal to the old one. Afterwards \<open>find_phone\<close> finds the new number, and it
  reports the old number as not found exactly when the old number was stored once
  and the new number differs from it.
\<close>

theorem edit_phone_then_find:
  assumes "Phone_init old_number = Inr p" and "p \<in> set (phones r)"
    and "Phone_init new_number = Inr q"
  shows "fst (edit_phone r old_number new_number) = Inr () \<and>
    phones (snd (edit_phone r old_number new_number)) = remove1 p (phones r @ [q]) \<and>
    find_phone (snd (edit_phone r old_number new_number)) new_number = Inr (Some q) \<and>
    (find_phone (snd (edit_phone r old_number new_number)) old_number = Inr None
       \<longleftrightarrow> count_list (phones r) p = 1 \<and> q \<noteq> p)"
proof -
  from assms(2) have ne: "phones r \<noteq> []" by auto
  from assms(1,2) ne have fp: "find_phone r old_number = Inr (Some p)"
    by (simp add: find_phone_def find_eq_mem)
  have ed: "edit_phone r old_number new_number
      = (Inr (), r\<lparr>phones := remove1 p (phones r @ [q])\<rparr>)"
    using fp assms(2,3) by (simp add: edit_phone_def add_phone_def remove_phone_def)
  have len: "length (remove1 p (phones r @ [q])) = length (phones r)"
    using assms(2) by (simp add: length_remove1)
  with ne have ne': "remove1 p (phones r @ [q]) \<noteq> []" by auto
  have c1: "1 \<le> count_list (phones r) p"
    using assms(2) count_list_pos [of "phones r" p] by simp
  have qin: "q \<in> set (remove1 p (phones r @ [q]))"
  proof (cases "q = p")
    case True
    with c1 show ?thesis by (simp add: mem_remove1_self)
  next
    case False
    then show ?thesis by simp
  qed
  have pin: "p \<in> set (remove1 p (phones r @ [q])) \<longleftrightarrow> \<not> (count_list (phones r) p = 1 \<and> q \<noteq> p)"
    using c1 by (auto simp: mem_remove1_self)
  show ?thesis
    using ed ne' qin pin assms(1,3)
    by (simp add: find_phone_def find_eq_mem find_eq_None)
qed

theorem edit_phone_then_find_witness:
  "fst (edit_phone
          \<lparr>name = Name (lit ''Ann''), phones = [Phone (lit ''0501234567''), Phone (lit ''0671234567'')],
             birthday = None\<rparr> (lit ''0501234567'') (lit ''0931234567'')) = Inr () \<and>
   phones (snd (edit_phone
          \<lparr>name = Name (lit ''Ann''), phones = [Phone (lit ''0501234567''), Phone (lit ''0671234567'')],
             birthday = None\<rparr> (lit ''0501234567'') (lit ''0931234567'')))
     = [Phone (lit ''0671234567''), Phone (lit ''0931234567'')] \<and>
   find_phone (snd (edit_phone
          \<lparr>name = Name (lit ''Ann''), phones = [Phone (lit ''0501234567''), Phone (lit ''0671234567'')],
             birthday = None\<rparr> (lit ''0501234567'') (lit ''0931234567''))) (lit ''0931234567'')
     = Inr (Some (Phone (lit ''0931234567''))) \<and>
   find_phone (snd (edit_phone
          \<lparr>name = Name (lit ''Ann''), phones = [Phone (lit ''0501234567''), Phone (lit ''0671234567'')],
             birthday = None\<rparr> (lit ''0501234567'') (lit ''0931234567''))) (lit ''0501234567'')
     = Inr None"
  using edit_phone_then_find
    [of "(lit ''0501234567'')" "Phone (lit ''0501234567'')"
        "\<lparr>name = Name (lit ''Ann''), phones = [Phone (lit ''0501234567''), Phone (lit ''0671234567'')],
           birthday = None\<rparr>"
        "(lit ''0931234567'')" "Phone (lit ''0931234567'')"]
  by (simp add: Phone_init_def text_eval)

section \<open>Creating a record\<close>

lemma Birthday_init_example:
  "Birthday_init (lit ''15.03.2024'') = Inr (Birthday (Some \<lparr>year = 2024, month = 3, day = 15\<rparr>))"
  by (simp add: Birthday_init_def text_eval)

lemma Birthday_init_example2:
  "Birthday_init (lit ''born 31.02.2024'') = Inl (ValueError (lit ''Invalid date format. Use DD.MM.YYYY''))"
  by (simp add: Birthday_init_def text_eval)

lemma date_to_string_example:
  "date_to_string \<lparr>year = 2024, month = 3, day = 15\<rparr> = lit ''15.03.2024''"
  by (simp add: date_to_string_def pad2_def pad4_def year_text_def digit_char_def lit_def)

lemma Phone_init_all_eq:
  "Phone_init_all ps =
     (if list_ex (\<lambda>p. isl (Phone_init p)) ps
      then Inl (WrongFormatOfField (lit ''The phone number should contain 10 numeric characters''))
      else Inr (map Phone ps))"
  by (induction ps) (auto simp: Phone_init_def)

lemma date_new_error: "date_new y m d = Inl e \<Longrightarrow> \<exists>msg. e = ValueError msg"
  by (auto simp: date_new_def split: if_splits)

lemma string_to_date_error: "string_to_date s = Inl e \<Longrightarrow> \<exists>msg. e = ValueError msg"
  by (auto simp: string_to_date_def strptime_dmY_def split: option.splits if_splits
      dest!: date_new_error)

lemma Birthday_init_error:
  "Birthday_init v = Inl e \<Longrightarrow> e = ValueError (lit ''Invalid date format. Use DD.MM.YYYY'')"
  by (auto simp: Birthday_init_def split: if_splits option.splits sum.splits error.splits
      dest: string_to_date_error)

text \<open>
  C5, as stated, fails: \<open>Name\<close> checks nothing, so a record with an empty name is
  created; and an empty birthday text, which \<open>Birthday\<close> itself refuses, is taken
  as no birthday.
\<close>

theorem Record_init_empty_name_counterexample:
  "Record_init (lit '''') None None = Inr \<lparr>name = Name (lit ''''), phones = [], birthday = None\<rparr> \<and>
   Birthday_init (lit '''') = Inl (ValueError (lit ''Invalid date format. Use DD.MM.YYYY'')) \<and>
   Record_init (lit ''Ann'') None (Some (lit ''''))
     = Inr \<lparr>name = Name (lit ''Ann''), phones = [], birthday = None\<rparr>"
  by (simp add: Record_init_def Birthday_init_def lit_def)

text \<open>
  C5, amended. Creating a record never fails because of the name. It raises
  \<open>WrongFormatOfField\<close> when a listed phone is not valid, and otherwise the
  \<open>ValueError\<close> of \<open>Birthday\<close> when a non-empty birthday text is not valid.
  Otherwise it returns the record with the given name, the listed phones in the
  listed order, and the birthday (none when the text is absent or empty).
\<close>

theorem Record_init_outcome:
  "Record_init nm phs bd =
     (let ps = (case phs of Some ps \<Rightarrow> ps | None \<Rightarrow> []);
          b = (case bd of Some b \<Rightarrow> b | None \<Rightarrow> [])
      in if list_ex (\<lambda>p. isl (Phone_init p)) ps
         then Inl (WrongFormatOfField (lit ''The phone number should contain 10 numeric characters''))
         else if b = []
         then Inr \<lparr>name = Name nm, phones = map Phone ps, birthday = None\<rparr>
         else (case Birthday_init b of
                 Inl e \<Rightarrow> Inl (ValueError (lit ''Invalid date format. Use DD.MM.YYYY''))
               | Inr x \<Rightarrow> Inr \<lparr>name = Name nm, phones = map Phone ps, birthday = Some x\<rparr>))"
proof -
  have b: "(case Birthday_init t of Inl e \<Rightarrow> Inl e | Inr x \<Rightarrow> (Inr (Some x) :: error + Birthday option))
      = (case Birthday_init t of
           Inl e \<Rightarrow> Inl (ValueError (lit ''Invalid date format. Use DD.MM.YYYY''))
         | Inr x \<Rightarrow> Inr (Some x))" for t
    by (auto split: sum.splits dest: Birthday_init_error)
  show ?thesis
    unfolding Record_init_def Let_def b
    by (cases phs; cases bd) (auto simp: Phone_init_all_eq split: sum.splits)
qed

theorem Record_init_outcome_witness:
  "Record_init (lit '''') (Some [(lit ''0501234567''), (lit ''0671234567'')]) (Some (lit ''15.03.2024''))
     = Inr \<lparr>name = Name (lit ''''), phones = [Phone (lit ''0501234567''), Phone (lit ''0671234567'')],
            birthday = Some (Birthday (Some \<lparr>year = 2024, month = 3, day = 15\<rparr>))\<rparr> \<and>
   Record_init (lit ''Ann'') (Some [(lit ''0501234567''), (lit ''12345'')]) (Some (lit ''15.03.2024''))
     = Inl (WrongFormatOfField (lit ''The phone number should contain 10 numeric characters'')) \<and>
   Record_init (lit ''Ann'') (Some [(lit ''0501234567'')]) (Some (lit ''31.02.2024''))
     = Inl (ValueError (lit ''Invalid date format. Use DD.MM.YYYY''))"
  using Record_init_outcome [of "(lit '''')" "Some [(lit ''0501234567''), (lit ''0671234567'')]" "Some (lit ''15.03.2024'')"]
    Record_init_outcome [of "(lit ''Ann'')" "Some [(lit ''0501234567''), (lit ''12345'')]" "Some (lit ''15.03.2024'')"]
    Record_init_outcome [of "(lit ''Ann'')" "Some [(lit ''0501234567'')]" "Some (lit ''31.02.2024'')"]
  by (simp add: Phone_init_def Birthday_init_def text_eval)

section \<open>Calendar facts\<close>

text \<open>
  The day after a valid date other than the last supported one is a valid date, its
  ordinal is one more, and its weekday is the next one.
\<close>

lemma div_step:
  fixes y k :: int
  assumes "0 < k"
  shows "y div k = (y - 1) div k + (if y mod k = 0 then 1 else 0)"
proof (cases "y mod k = 0")
  case True
  have "y - 1 = k * (y div k - 1) + (k - 1)"
    using True mult_div_mod_eq[of k y] by (simp add: algebra_simps)
  then have "(y - 1) div k = y div k - 1"
    using assms by (intro int_div_pos_eq[where r = "k - 1"]) auto
  with True show ?thesis by simp
next
  case False
  have m: "0 \<le> y mod k" "y mod k < k" using assms by auto
  have "y - 1 = k * (y div k) + (y mod k - 1)"
    using mult_div_mod_eq[of k y] by (simp add: algebra_simps)
  then have "(y - 1) div k = y div k"
    using assms m False by (intro int_div_pos_eq[where r = "y mod k - 1"]) auto
  with False show ?thesis by simp
qed

lemma mod_400_100: "(y::int) mod 400 = 0 \<Longrightarrow> y mod 100 = 0"
proof -
  assume h: "y mod 400 = 0"
  have "y mod 400 mod 100 = y mod 100" by (rule mod_mod_cancel) simp
  with h show ?thesis by simp
qed

lemma mod_100_4: "(y::int) mod 100 = 0 \<Longrightarrow> y mod 4 = 0"
proof -
  assume h: "y mod 100 = 0"
  have "y mod 100 mod 4 = y mod 4" by (rule mod_mod_cancel) simp
  with h show ?thesis by simp
qed

lemma days_before_year_Suc:
  "days_before_year (y + 1) = days_before_year y + (if is_leap y then 366 else 365)"
proof -
  define a where "a = (y - 1) div 4"
  define b where "b = (y - 1) div 100"
  define c where "c = (y - 1) div 400"
  define p4 where "p4 \<longleftrightarrow> y mod 4 = 0"
  define p100 where "p100 \<longleftrightarrow> y mod 100 = 0"
  define p400 where "p400 \<longleftrightarrow> y mod 400 = 0"
  have a: "y div 4 = a + (if p4 then 1 else 0)"
    unfolding a_def p4_def by (rule div_step) simp
  have b: "y div 100 = b + (if p100 then 1 else 0)"
    unfolding b_def p100_def by (rule div_step) simp
  have c: "y div 400 = c + (if p400 then 1 else 0)"
    unfolding c_def p400_def by (rule div_step) simp
  have d: "p400 \<Longrightarrow> p100" unfolding p400_def p100_def by (rule mod_400_100)
  have e: "p100 \<Longrightarrow> p4" unfolding p4_def p100_def by (rule mod_100_4)
  have l: "is_leap y \<longleftrightarrow> p4 \<and> (\<not> p100 \<or> p400)"
    unfolding is_leap_def p4_def p100_def p400_def ..
  have "days_before_year (y + 1) = y * 365 + y div 4 - y div 100 + y div 400"
    unfolding days_before_year_def Let_def by (simp only: add_diff_cancel_right')
  also have "\<dots> = ((y - 1) * 365 + a - b + c) + (if is_leap y then 366 else 365)"
    unfolding a b c l using d e by (cases p4; cases p100; cases p400) (simp_all add: algebra_simps)
  also have "(y - 1) * 365 + a - b + c = days_before_year y"
    unfolding days_before_year_def a_def b_def c_def Let_def ..
  finally show ?thesis .
qed

lemma month_cases:
  fixes m :: int
  assumes "1 \<le> m" and "m \<le> 12"
  shows "m = 1 \<or> m = 2 \<or> m = 3 \<or> m = 4 \<or> m = 5 \<or> m = 6 \<or> m = 7 \<or> m = 8 \<or> m = 9
    \<or> m = 10 \<or> m = 11 \<or> m = 12"
  using assms by arith

lemma days_before_month_Suc:
  assumes "1 \<le> m" and "m < 12"
  shows "days_before_month y (m + 1) = days_before_month y m + days_in_month y m"
proof -
  from assms have "m = 1 \<or> m = 2 \<or> m = 3 \<or> m = 4 \<or> m = 5 \<or> m = 6 \<or> m = 7 \<or> m = 8
    \<or> m = 9 \<or> m = 10 \<or> m = 11" by arith
  then show ?thesis
    by (elim disjE) (simp_all add: days_before_month_def days_in_month_def)
qed

lemma days_in_month_bounds: "28 \<le> days_in_month y m \<and> days_in_month y m \<le> 31"
  by (simp add: days_in_month_def)

lemma next_day_cases:
  assumes "valid_date d" and "d \<noteq> date_max"
  obtains (same_month) "day d < days_in_month (year d) (month d)"
      "next_day d = \<lparr>year = year d, month = month d, day = day d + 1\<rparr>"
    | (next_month) "day d = days_in_month (year d) (month d)" "month d < 12"
      "next_day d = \<lparr>year = year d, month = month d + 1, day = 1\<rparr>"
    | (next_year) "day d = 31" "month d = 12" "year d < MAXYEAR"
      "next_day d = \<lparr>year = year d + 1, month = 1, day = 1\<rparr>"
proof (cases "day d < days_in_month (year d) (month d)")
  case True
  then have "next_day d = \<lparr>year = year d, month = month d, day = day d + 1\<rparr>"
    by (simp add: next_day_def)
  with True show ?thesis by (rule same_month)
next
  case False
  with assms(1) have eq: "day d = days_in_month (year d) (month d)"
    by (simp add: valid_date_def)
  show ?thesis
  proof (cases "month d < 12")
    case True
    with False have "next_day d = \<lparr>year = year d, month = month d + 1, day = 1\<rparr>"
      by (simp add: next_day_def)
    with eq True show ?thesis by (rule next_month)
  next
    case m: False
    with assms(1) have m12: "month d = 12" by (simp add: valid_date_def)
    with eq have d31: "day d = 31" by (simp add: days_in_month_def)
    have "year d \<noteq> MAXYEAR"
    proof
      assume "year d = MAXYEAR"
      with m12 d31 have "d = date_max" by (simp add: date_max_def)
      with assms(2) show False by simp
    qed
    with assms(1) have y: "year d < MAXYEAR" by (simp add: valid_date_def)
    from False m have "next_day d = \<lparr>year = year d + 1, month = 1, day = 1\<rparr>"
      by (simp add: next_day_def)
    with d31 m12 y show ?thesis by (rule next_year)
  qed
qed

lemma valid_date_next_day:
  assumes "valid_date d" and "d \<noteq> date_max"
  shows "valid_date (next_day d)"
  using assms
proof (cases rule: next_day_cases)
  case same_month
  with assms(1) show ?thesis by (simp add: valid_date_def)
next
  case next_month
  with assms(1) days_in_month_bounds[of "year d" "month d + 1"] show ?thesis
    by (simp add: valid_date_def)
next
  case next_year
  with assms(1) show ?thesis
    by (simp add: valid_date_def days_in_month_def MINYEAR_def)
qed

lemma toordinal_next_day:
  assumes "valid_date d" and "d \<noteq> date_max"
  shows "toordinal (next_day d) = toordinal d + 1"
  using assms
proof (cases rule: next_day_cases)
  case same_month
  then show ?thesis by (simp add: toordinal_def)
next
  case next_month
  moreover from assms(1) have "1 \<le> month d" by (simp add: valid_date_def)
  ultimately show ?thesis
    by (simp add: toordinal_def days_before_month_Suc)
next
  case next_year
  then show ?thesis
    by (simp add: toordinal_def days_before_year_Suc days_before_month_def)
qed

lemma weekday_next_day:
  assumes "valid_date d" and "d \<noteq> date_max"
  shows "weekday (next_day d) = (weekday d + 1) mod 7"
  unfolding weekday_def toordinal_next_day[OF assms]
  by (simp add: mod_simps algebra_simps)

lemma weekday_date_max: "weekday date_max = 4"
  by (simp add: weekday_def toordinal_def date_max_def MAXYEAR_def days_before_year_def
      days_before_month_def is_leap_def)

lemma weekday_range: "0 \<le> weekday d \<and> weekday d < 7"
  by (simp add: weekday_def)

lemma date_new_valid: "date_new y m d = Inr x \<Longrightarrow> valid_date x"
  by (auto simp: date_new_def valid_date_def split: if_splits)

lemma occurrence_valid: "occurrence today bd = Inr occ \<Longrightarrow> valid_date occ"
  by (auto simp: occurrence_def replace_year_def split: sum.splits if_splits
      dest: date_new_valid)

lemma saturday_props:
  assumes v: "valid_date d" and w: "weekday d = 5"
  shows "d \<noteq> date_max" and "next_day d \<noteq> date_max"
    and "valid_date (next_day (next_day d))"
    and "weekday (next_day (next_day d)) = 0"
    and "toordinal (next_day (next_day d)) = toordinal d + 2"
proof -
  show n1: "d \<noteq> date_max" using w weekday_date_max by auto
  have w1: "weekday (next_day d) = 6"
    using weekday_next_day [OF v n1] w by simp
  show n2: "next_day d \<noteq> date_max" using w1 weekday_date_max by auto
  have v1: "valid_date (next_day d)" using v n1 by (rule valid_date_next_day)
  show "valid_date (next_day (next_day d))" using v1 n2 by (rule valid_date_next_day)
  show "weekday (next_day (next_day d)) = 0"
    using weekday_next_day [OF v1 n2] w1 by simp
  show "toordinal (next_day (next_day d)) = toordinal d + 2"
    using toordinal_next_day [OF v1 n2] toordinal_next_day [OF v n1] by simp
qed

lemma sunday_props:
  assumes v: "valid_date d" and w: "weekday d = 6"
  shows "d \<noteq> date_max" and "valid_date (next_day d)"
    and "weekday (next_day d) = 0" and "toordinal (next_day d) = toordinal d + 1"
proof -
  show n1: "d \<noteq> date_max" using w weekday_date_max by auto
  show "valid_date (next_day d)" using v n1 by (rule valid_date_next_day)
  show "weekday (next_day d) = 0" using weekday_next_day [OF v n1] w by simp
  show "toordinal (next_day d) = toordinal d + 1" using v n1 by (rule toordinal_next_day)
qed

lemma weekend_cases: "5 \<le> weekday d \<Longrightarrow> weekday d = 5 \<or> weekday d = 6"
  using weekday_range [of d] by arith

lemma adjust_for_weekend_eq:
  assumes "valid_date d"
  shows "adjust_for_weekend d = Inr (congratulation_date d)"
proof (cases "5 \<le> weekday d")
  case False
  then show ?thesis by (simp add: adjust_for_weekend_def congratulation_date_def)
next
  case True
  then consider "weekday d = 5" | "weekday d = 6" using weekend_cases by blast
  then show ?thesis
  proof cases
    case 1
    have "date_add d 2 = Inr (next_day (next_day d))"
      using saturday_props(1,2) [OF assms 1]
      by (simp add: date_add_def numeral_2_eq_2)
    with 1 show ?thesis
      by (simp add: adjust_for_weekend_def find_next_weekday_def congratulation_date_def)
  next
    case 2
    have "date_add d 1 = Inr (next_day d)"
      using sunday_props(1) [OF assms 2] by (simp add: date_add_def)
    with 2 show ?thesis
      by (simp add: adjust_for_weekend_def find_next_weekday_def congratulation_date_def)
  qed
qed

lemma congratulation_date_monday:
  assumes "valid_date d" and "5 \<le> weekday d"
  shows "valid_date (congratulation_date d) \<and> weekday (congratulation_date d) = 0 \<and>
    toordinal (congratulation_date d) - toordinal d = 7 - weekday d"
proof -
  from assms(2) consider "weekday d = 5" | "weekday d = 6" using weekend_cases by blast
  then show ?thesis
  proof cases
    case 1
    with saturday_props(3,4,5) [OF assms(1) 1] show ?thesis
      by (simp add: congratulation_date_def)
  next
    case 2
    with sunday_props(2,3,4) [OF assms(1) 2] show ?thesis
      by (simp add: congratulation_date_def)
  qed
qed


section \<open>Upcoming birthdays\<close>

text \<open>
  One round of the loop of \<open>get_upcoming_birthdays\<close>, in terms of the occurrence
  and of the congratulation date.
\<close>

lemma upcoming_loop_occurrence:
  "upcoming_loop today days ((key, r) # rest) acc =
     (case birthday r of
        None \<Rightarrow> Inl (AttributeError (lit ''NoneType object has no attribute value''))
      | Some b \<Rightarrow>
          (case birthday_value b of
             None \<Rightarrow> upcoming_loop today days rest acc
           | Some bd \<Rightarrow>
               (case occurrence today bd of
                  Inl e \<Rightarrow> Inl e
                | Inr occ \<Rightarrow>
                    if 0 \<le> days_between occ today \<and> days_between occ today \<le> days
                    then (case adjust_for_weekend occ of
                            Inl e \<Rightarrow> Inl e
                          | Inr shifted \<Rightarrow>
                              upcoming_loop today days rest
                                (acc @ [(key, date_to_string shifted)]))
                    else upcoming_loop today days rest acc)))"
  by (simp add: occurrence_def split: option.splits sum.splits)

lemma upcoming_loop_Cons:
  "upcoming_loop today days ((key, r) # rest) acc =
     (case birthday r of
        None \<Rightarrow> Inl (AttributeError (lit ''NoneType object has no attribute value''))
      | Some b \<Rightarrow>
          (case birthday_value b of
             None \<Rightarrow> upcoming_loop today days rest acc
           | Some bd \<Rightarrow>
               (case occurrence today bd of
                  Inl e \<Rightarrow> Inl e
                | Inr occ \<Rightarrow>
                    if 0 \<le> days_between occ today \<and> days_between occ today \<le> days
                    then upcoming_loop today days rest
                           (acc @ [(key, date_to_string (congratulation_date occ))])
                    else upcoming_loop today days rest acc)))"
proof (cases "birthday r")
  case None
  then show ?thesis by (subst upcoming_loop_occurrence) simp
next
  case b: (Some b)
  show ?thesis
  proof (cases "birthday_value b")
    case None
    with b show ?thesis by (subst upcoming_loop_occurrence) simp
  next
    case bd: (Some bd)
    show ?thesis
    proof (cases "occurrence today bd")
      case (Inl e)
      with b bd show ?thesis by (subst upcoming_loop_occurrence) simp
    next
      case (Inr occ)
      then have "adjust_for_weekend occ = Inr (congratulation_date occ)"
        by (intro adjust_for_weekend_eq occurrence_valid)
      with b bd Inr show ?thesis by (subst upcoming_loop_occurrence) simp
    qed
  qed
qed

lemma upcoming_loop_step:
  assumes "upcoming_loop today days (kr # rest) acc = Inr result"
  shows "\<exists>es. upcoming_loop today days rest (acc @ es) = Inr result \<and>
    (\<forall>x. x \<in> set es \<longleftrightarrow> reports today days kr x)"
proof -
  obtain key r where kr: "kr = (key, r)" by (cases kr)
  note loop = assms [unfolded kr upcoming_loop_Cons]
  from loop obtain b where b: "birthday r = Some b"
    by (cases "birthday r") auto
  show ?thesis
  proof (cases "birthday_value b")
    case None
    with loop b have "upcoming_loop today days rest (acc @ []) = Inr result" by simp
    moreover from None b have "\<forall>x. x \<in> set [] \<longleftrightarrow> reports today days kr x"
      by (simp add: reports_def kr)
    ultimately show ?thesis by blast
  next
    case bd: (Some bd)
    from loop b bd obtain occ where occ: "occurrence today bd = Inr occ"
      by (cases "occurrence today bd") auto
    show ?thesis
    proof (cases "0 \<le> days_between occ today \<and> days_between occ today \<le> days")
      case True
      with loop b bd occ
      have "upcoming_loop today days rest
          (acc @ [(key, date_to_string (congratulation_date occ))]) = Inr result"
        by simp
      moreover from True b bd occ
      have "\<forall>x. x \<in> set [(key, date_to_string (congratulation_date occ))]
          \<longleftrightarrow> reports today days kr x"
        by (simp add: reports_def kr)
      ultimately show ?thesis by blast
    next
      case False
      with loop b bd occ have "upcoming_loop today days rest (acc @ []) = Inr result"
        by simp
      moreover from False b bd occ have "\<forall>x. x \<in> set [] \<longleftrightarrow> reports today days kr x"
        by (auto simp: reports_def kr)
      ultimately show ?thesis by blast
    qed
  qed
qed

lemma upcoming_loop_mem:
  assumes "upcoming_loop today days book acc = Inr result"
  shows "x \<in> set result \<longleftrightarrow> x \<in> set acc \<or> (\<exists>kr \<in> set book. reports today days kr x)"
  using assms
proof (induction book arbitrary: acc)
  case Nil
  then show ?case by simp
next
  case (Cons kr rest)
  from upcoming_loop_step [OF Cons.prems] obtain es
    where rest: "upcoming_loop today days rest (acc @ es) = Inr result"
      and es: "\<And>x. x \<in> set es \<longleftrightarrow> reports today days kr x"
    by blast
  from Cons.IH [OF rest] es show ?case by auto
qed

lemma reports_iff:
  "reports today days (key, r) x \<longleftrightarrow>
     (\<exists>b bd occ. birthday r = Some b \<and> birthday_value b = Some bd \<and>
        occurrence today bd = Inr occ \<and>
        0 \<le> days_between occ today \<and> days_between occ today \<le> days \<and>
        x = (key, date_to_string (congratulation_date occ)))"
  by (auto simp: reports_def split: option.splits sum.splits)

lemmas calendar_eval =
  replace_year_def date_new_def MINYEAR_def MAXYEAR_def days_in_month_def is_leap_def
  date_lt_def days_between_def toordinal_def days_before_year_def days_before_month_def
  weekday_def adjust_for_weekend_def find_next_weekday_def date_add_def next_day_def
  date_max_def date_to_string_def pad2_def pad4_def year_text_def digit_char_def
  occurrence_def congratulation_date_def lit_def

lemma upcoming_example:
  "get_upcoming_birthdays
     [((lit ''Alice''), \<lparr>name = Name (lit ''Alice''), phones = [],
         birthday = Some (Birthday (Some \<lparr>year = 2024, month = 3, day = 15\<rparr>))\<rparr>),
      ((lit ''Bob''), \<lparr>name = Name (lit ''Bob''), phones = [],
         birthday = Some (Birthday (Some \<lparr>year = 1990, month = 3, day = 16\<rparr>))\<rparr>),
      ((lit ''Carol''), \<lparr>name = Name (lit ''Carol''), phones = [],
         birthday = Some (Birthday (Some \<lparr>year = 1990, month = 1, day = 1\<rparr>))\<rparr>),
      ((lit ''Dan''), \<lparr>name = Name (lit ''Dan''), phones = [], birthday = Some (Birthday None)\<rparr>)]
     \<lparr>year = 2024, month = 3, day = 10\<rparr> 7
   = Inr [((lit ''Alice''), (lit ''15.03.2024'')), ((lit ''Bob''), (lit ''18.03.2024''))]"
  by (simp add: get_upcoming_birthdays_def calendar_eval numeral_2_eq_2)

text \<open>
  What the call reports whenever it returns: exactly the entries of the records
  whose birthday is present and whose occurrence \<open>occ\<close>, unshifted, satisfies
  \<open>0 \<le> occ - today \<le> days\<close>, each with the congratulation date of \<open>occ\<close>. What
  \<open>adjust_for_weekend\<close> returns is that congratulation date: the occurrence itself
  on Monday to Friday, and on Saturday or Sunday the valid date one or two days
  later that is a Monday.
\<close>

lemma upcoming_birthdays_when_returned:
  assumes "get_upcoming_birthdays book today days = Inr result"
  shows "((key, s) \<in> set result \<longleftrightarrow>
            (\<exists>r b bd occ. (key, r) \<in> set book \<and> birthday r = Some b \<and>
               birthday_value b = Some bd \<and> occurrence today bd = Inr occ \<and>
               0 \<le> days_between occ today \<and> days_between occ today \<le> days \<and>
               s = date_to_string (congratulation_date occ))) \<and>
         (\<forall>bd occ. occurrence today bd = Inr occ \<longrightarrow>
            adjust_for_weekend occ = Inr (congratulation_date occ) \<and>
            (weekday occ < 5 \<longrightarrow> congratulation_date occ = occ) \<and>
            (5 \<le> weekday occ \<longrightarrow>
               valid_date (congratulation_date occ) \<and>
               weekday (congratulation_date occ) = 0 \<and>
               toordinal (congratulation_date occ) - toordinal occ = 7 - weekday occ \<and>
               (toordinal (congratulation_date occ) - toordinal occ = 1 \<or>
                toordinal (congratulation_date occ) - toordinal occ = 2)))"
proof (intro conjI allI impI)
  have "(key, s) \<in> set result \<longleftrightarrow> (\<exists>kr \<in> set book. reports today days kr (key, s))"
    using upcoming_loop_mem [OF assms [unfolded get_upcoming_birthdays_def]] by simp
  also have "\<dots> \<longleftrightarrow> (\<exists>k r. (k, r) \<in> set book \<and> reports today days (k, r) (key, s))"
    by auto
  also have "\<dots> \<longleftrightarrow> (\<exists>r b bd occ. (key, r) \<in> set book \<and> birthday r = Some b \<and>
               birthday_value b = Some bd \<and> occurrence today bd = Inr occ \<and>
               0 \<le> days_between occ today \<and> days_between occ today \<le> days \<and>
               s = date_to_string (congratulation_date occ))"
    unfolding reports_iff by (simp only: prod.inject) blast
  finally show "(key, s) \<in> set result \<longleftrightarrow>
            (\<exists>r b bd occ. (key, r) \<in> set book \<and> birthday r = Some b \<and>
               birthday_value b = Some bd \<and> occurrence today bd = Inr occ \<and>
               0 \<le> days_between occ today \<and> days_between occ today \<le> days \<and>
               s = date_to_string (congratulation_date occ))" .
next
  fix bd occ assume "occurrence today bd = Inr occ"
  then show "adjust_for_weekend occ = Inr (congratulation_date occ)"
    by (intro adjust_for_weekend_eq occurrence_valid)
next
  fix bd occ assume "occurrence today bd = Inr occ" and "weekday occ < 5"
  then show "congratulation_date occ = occ" by (simp add: congratulation_date_def)
next
  fix bd occ assume o: "occurrence today bd = Inr occ" and w: "5 \<le> weekday occ"
  note m = congratulation_date_monday [OF occurrence_valid [OF o] w]
  from m show "valid_date (congratulation_date occ)" by simp
  from m show "weekday (congratulation_date occ) = 0" by simp
  from m show "toordinal (congratulation_date occ) - toordinal occ = 7 - weekday occ" by simp
  from m weekend_cases [OF w]
  show "toordinal (congratulation_date occ) - toordinal occ = 1 \<or>
        toordinal (congratulation_date occ) - toordinal occ = 2" by auto
qed


text \<open>
  When the call returns at all: every record must have a \<open>Birthday\<close> object, and
  every present birthday must have its occurrence.
\<close>

lemma upcoming_loop_returns:
  "(\<exists>result. upcoming_loop today days book acc = Inr result) \<longleftrightarrow>
     list_all (\<lambda>(key, r).
        case birthday r of
          None \<Rightarrow> False
        | Some b \<Rightarrow>
            (case birthday_value b of
               None \<Rightarrow> True
             | Some bd \<Rightarrow> (case occurrence today bd of Inl e \<Rightarrow> False | Inr occ \<Rightarrow> True)))
       book"
proof (induction book arbitrary: acc)
  case Nil
  show ?case by simp
next
  case (Cons kr rest)
  obtain key r where kr: "kr = (key, r)" by (cases kr)
  show ?case
    unfolding kr upcoming_loop_Cons
    by (simp add: Cons.IH split: option.splits sum.splits)
qed

text \<open>
  C3 fails on the code. Bob's occurrence, Saturday 16 March 2024, is six days after
  today and passes the window filter; alone in the book he is reported with the
  following Monday, 18 March. With a record that was created without a birthday in
  the same book, the call raises \<open>AttributeError\<close> and reports nothing for Bob.
\<close>

theorem weekend_report_lost:
  "weekday \<lparr>year = 2024, month = 3, day = 16\<rparr> = 5 \<and>
   days_between \<lparr>year = 2024, month = 3, day = 16\<rparr> \<lparr>year = 2024, month = 3, day = 10\<rparr> = 6 \<and>
   get_upcoming_birthdays
     [(lit ''Bob'', \<lparr>name = Name (lit ''Bob''), phones = [],
         birthday = Some (Birthday (Some \<lparr>year = 1990, month = 3, day = 16\<rparr>))\<rparr>)]
     \<lparr>year = 2024, month = 3, day = 10\<rparr> 7
     = Inr [(lit ''Bob'', lit ''18.03.2024'')] \<and>
   get_upcoming_birthdays
     [(lit ''Ann'', \<lparr>name = Name (lit ''Ann''), phones = [], birthday = None\<rparr>),
      (lit ''Bob'', \<lparr>name = Name (lit ''Bob''), phones = [],
         birthday = Some (Birthday (Some \<lparr>year = 1990, month = 3, day = 16\<rparr>))\<rparr>)]
     \<lparr>year = 2024, month = 3, day = 10\<rparr> 7
     = Inl (AttributeError (lit ''NoneType object has no attribute value''))"
  by (simp add: get_upcoming_birthdays_def calendar_eval numeral_2_eq_2)

text \<open>
  C1 fails on the code. A record created without a birthday has the attribute
  \<open>birthday = None\<close>, and \<open>get_upcoming_birthdays\<close> reads \<open>record.birthday.value\<close>
  of every record: the call raises \<open>AttributeError\<close>, whatever the day and the
  window, instead of skipping the record.
\<close>

theorem absent_birthday_raises:
  "Record_init (lit ''Ann'') None None = Inr \<lparr>name = Name (lit ''Ann''), phones = [], birthday = None\<rparr> \<and>
   get_upcoming_birthdays
     [((lit ''Ann''), \<lparr>name = Name (lit ''Ann''), phones = [], birthday = None\<rparr>)] today days
     = Inl (AttributeError (lit ''NoneType object has no attribute value''))"
  by (simp add: Record_init_def get_upcoming_birthdays_def)

text \<open>
  C2 fails on the code. For a birthday on 29 February, \<open>replace(year=today.year)\<close>
  raises \<open>ValueError\<close> when today's year is not a leap year, so the call raises
  instead of deciding on the record.
\<close>

theorem leap_day_birthday_raises:
  "Birthday_init (lit ''29.02.2000'') = Inr (Birthday (Some \<lparr>year = 2000, month = 2, day = 29\<rparr>)) \<and>
   get_upcoming_birthdays
     [((lit ''Bob''), \<lparr>name = Name (lit ''Bob''), phones = [],
         birthday = Some (Birthday (Some \<lparr>year = 2000, month = 2, day = 29\<rparr>))\<rparr>)]
     \<lparr>year = 2023, month = 2, day = 25\<rparr> 7
     = Inl (ValueError (lit ''day is out of range for month''))"
  by (simp add: get_upcoming_birthdays_def calendar_eval Birthday_init_def text_eval)

section \<open>Birthday texts\<close>

text \<open>
  C7 fails on the code. The text \<open>01.01.0999\<close> has the form \<open>DD.MM.YYYY\<close> and
  denotes a valid date; \<open>Birthday\<close> accepts it, but formatting the value gives
  \<open>01.01.999\<close>, because \<open>strftime\<close> does not pad the year: the original text is not
  reproduced, and \<open>Birthday\<close> refuses what was formatted. A text with a decimal digit
  outside ASCII, such as \<open>15.03.\<close> followed by the Arabic-Indic digits 2, 0, 2, 4,
  is accepted as well and formats back in ASCII digits.
\<close>

theorem birthday_round_trip_lost:
  "Birthday_init (lit ''01.01.0999'')
     = Inr (Birthday (Some \<lparr>year = 999, month = 1, day = 1\<rparr>)) \<and>
   Birthday_str (Birthday (Some \<lparr>year = 999, month = 1, day = 1\<rparr>)) = lit ''01.01.999'' \<and>
   lit ''01.01.999'' \<noteq> lit ''01.01.0999'' \<and>
   Birthday_init (lit ''01.01.999'')
     = Inl (ValueError (lit ''Invalid date format. Use DD.MM.YYYY'')) \<and>
   Birthday_init (lit ''15.03.'' @ [1634, 1632, 1634, 1636])
     = Inr (Birthday (Some \<lparr>year = 2024, month = 3, day = 15\<rparr>)) \<and>
   Birthday_str (Birthday (Some \<lparr>year = 2024, month = 3, day = 15\<rparr>)) = lit ''15.03.2024''"
  by (simp add: Birthday_init_def Birthday_str_def date_to_string_def pad2_def pad4_def
      year_text_def digit_char_def text_eval)

text \<open>
  Where the round trip does hold: ASCII digits and a year of four significant
  places.
\<close>

lemma digit_facts:
  assumes "is_ascii_digit c"
  shows "0 \<le> digit_val c" and "digit_val c \<le> 9" and "digit_char (digit_val c) = c"
    and "c \<noteq> of_char CHR ''.''" and "is_decimal c" and "digit_val c = int c - 48"
  using assms
  by (auto simp: is_ascii_digit_def is_decimal_def digit_val_def decimal_value_def
      decimal_starts_def digit_char_def)

lemma div_mod_10:
  fixes x y :: int
  assumes "0 \<le> y" and "y \<le> 9"
  shows "(10 * x + y) div 10 = x" and "(10 * x + y) mod 10 = y"
  using assms by auto

lemma pad2_digits:
  assumes "is_ascii_digit a" and "is_ascii_digit b"
  shows "pad2 (10 * digit_val a + digit_val b) = [a, b]"
  using digit_facts(1-3) [OF assms(1)] digit_facts(1-3) [OF assms(2)]
  by (simp add: pad2_def div_mod_10)

lemma ascii_date_text_shape:
  assumes "ascii_date_text t"
  obtains d1 d2 m1 m2 y1 y2 y3 y4 where
    "t = [d1, d2, of_char CHR ''.'', m1, m2, of_char CHR ''.'', y1, y2, y3, y4]"
    and "is_ascii_digit d1" and "is_ascii_digit d2" and "is_ascii_digit m1"
    and "is_ascii_digit m2" and "is_ascii_digit y1" and "is_ascii_digit y2"
    and "is_ascii_digit y3" and "is_ascii_digit y4"
  using assms unfolding ascii_date_text_def
  by (simp split: list.splits)

lemma digit_val_cases:
  assumes "is_ascii_digit c"
  shows "digit_val c = 0 \<Longrightarrow> c = of_char CHR ''0''"
    and "digit_val c = 1 \<Longrightarrow> c = of_char CHR ''1''"
    and "digit_val c = 2 \<Longrightarrow> c = of_char CHR ''2''"
    and "digit_val c = 3 \<Longrightarrow> c = of_char CHR ''3''"
    and "digit_val c \<noteq> 0 \<Longrightarrow> is_nonzero_digit c"
  using assms digit_facts(6) [OF assms]
  by (auto simp: is_ascii_digit_def is_nonzero_digit_def)

lemma day_field_two:
  assumes a: "is_ascii_digit a" and b: "is_ascii_digit b"
    and lo: "1 \<le> 10 * digit_val a + digit_val b" and hi: "10 * digit_val a + digit_val b \<le> 31"
  shows "day_field [a, b]"
proof -
  note va = digit_facts(1,2) [OF a] and vb = digit_facts(1,2) [OF b]
  from va vb hi consider "digit_val a = 0" | "digit_val a = 1" | "digit_val a = 2"
    | "digit_val a = 3" by arith
  then show ?thesis
  proof cases
    case 1
    with lo have "digit_val b \<noteq> 0" by simp
    with 1 digit_val_cases(1) [OF a] digit_val_cases(5) [OF b] show ?thesis
      by (simp add: day_field_def)
  next
    case 2
    with digit_val_cases(2) [OF a] digit_facts(5) [OF b] show ?thesis
      by (simp add: day_field_def)
  next
    case 3
    with digit_val_cases(3) [OF a] digit_facts(5) [OF b] show ?thesis
      by (simp add: day_field_def)
  next
    case 4
    with hi vb have "digit_val b = 0 \<or> digit_val b = 1" by arith
    with digit_val_cases(1,2) [OF b] have "b = of_char CHR ''0'' \<or> b = of_char CHR ''1''" by blast
    with 4 digit_val_cases(4) [OF a] show ?thesis by (simp add: day_field_def)
  qed
qed

lemma month_field_two:
  assumes a: "is_ascii_digit a" and b: "is_ascii_digit b"
    and lo: "1 \<le> 10 * digit_val a + digit_val b" and hi: "10 * digit_val a + digit_val b \<le> 12"
  shows "month_field [a, b]"
proof -
  note va = digit_facts(1,2) [OF a] and vb = digit_facts(1,2) [OF b]
  from va vb hi consider "digit_val a = 0" | "digit_val a = 1" by arith
  then show ?thesis
  proof cases
    case 1
    with lo have "digit_val b \<noteq> 0" by simp
    with 1 digit_val_cases(1) [OF a] digit_val_cases(5) [OF b] show ?thesis
      by (simp add: month_field_def)
  next
    case 2
    with hi vb have "digit_val b = 0 \<or> digit_val b = 1 \<or> digit_val b = 2" by arith
    with digit_val_cases(1,2,3) [OF b]
    have "b = of_char CHR ''0'' \<or> b = of_char CHR ''1'' \<or> b = of_char CHR ''2''" by blast
    with 2 digit_val_cases(2) [OF a] show ?thesis by (simp add: month_field_def)
  qed
qed



lemma pad4_digits:
  assumes "is_ascii_digit a" and "is_ascii_digit b" and "is_ascii_digit c" and "is_ascii_digit d"
  shows "pad4 (10 * (10 * (10 * digit_val a + digit_val b) + digit_val c) + digit_val d)
    = [a, b, c, d]"
proof -
  define n where "n = 10 * (10 * (10 * digit_val a + digit_val b) + digit_val c) + digit_val d"
  note va = digit_facts(1,2) [OF assms(1)] and vb = digit_facts(1,2) [OF assms(2)]
    and vc = digit_facts(1,2) [OF assms(3)] and vd = digit_facts(1,2) [OF assms(4)]
  have m0: "n mod 10 = digit_val d"
    unfolding n_def by (rule div_mod_10(2) [OF vd])
  have d1: "n div 10 = 10 * (10 * digit_val a + digit_val b) + digit_val c"
    unfolding n_def by (rule div_mod_10(1) [OF vd])
  have e100: "n div 100 = n div 10 div 10"
    using zdiv_zmult2_eq [of 10 n 10] by simp
  have e1000: "n div 1000 = n div 10 div 10 div 10"
    using zdiv_zmult2_eq [of 100 n 10] zdiv_zmult2_eq [of 10 "n div 10" 10] by simp
  have d2: "n div 10 div 10 = 10 * digit_val a + digit_val b"
    unfolding d1 by (rule div_mod_10(1) [OF vc])
  have m1: "n div 10 mod 10 = digit_val c"
    unfolding d1 by (rule div_mod_10(2) [OF vc])
  have d3: "n div 10 div 10 div 10 = digit_val a"
    unfolding d2 by (rule div_mod_10(1) [OF vb])
  have m2: "n div 10 div 10 mod 10 = digit_val b"
    unfolding d2 by (rule div_mod_10(2) [OF vb])
  have m3: "digit_val a mod 10 = digit_val a" using va by simp
  have "pad4 n = [a, b, c, d]"
    unfolding pad4_def e100 e1000 d3 m3 m2 m1 m0
    using digit_facts(3) [OF assms(1)] digit_facts(3) [OF assms(2)]
      digit_facts(3) [OF assms(3)] digit_facts(3) [OF assms(4)] by simp
  then show ?thesis unfolding n_def .
qed

lemma int_of_digits_2: "int_of_digits [a, b] = 10 * digit_val a + digit_val b"
  by (simp add: int_of_digits_def)

lemma int_of_digits_4:
  "int_of_digits [a, b, c, d]
     = 10 * (10 * (10 * digit_val a + digit_val b) + digit_val c) + digit_val d"
  by (simp add: int_of_digits_def)

lemma date_new_Inr:
  assumes "date_new y m d = Inr x"
  shows "x = \<lparr>year = y, month = m, day = d\<rparr>" and "1 \<le> m" and "m \<le> 12" and "1 \<le> d"
    and "d \<le> 31"
proof -
  from assms show "x = \<lparr>year = y, month = m, day = d\<rparr>" and "1 \<le> m" and "m \<le> 12"
    and "1 \<le> d"
    by (auto simp: date_new_def split: if_splits)
  from assms have "d \<le> days_in_month y m"
    by (auto simp: date_new_def split: if_splits)
  also have "\<dots> \<le> 31" by (simp add: days_in_month_def)
  finally show "d \<le> 31" .
qed


lemma pad2_int_of_digits:
  assumes "is_ascii_digit a" and "is_ascii_digit b"
  shows "pad2 (int_of_digits [a, b]) = [a, b]"
  unfolding int_of_digits_2 using assms by (rule pad2_digits)

lemma pad4_int_of_digits:
  assumes "is_ascii_digit a" and "is_ascii_digit b" and "is_ascii_digit c" and "is_ascii_digit d"
  shows "pad4 (int_of_digits [a, b, c, d]) = [a, b, c, d]"
  unfolding int_of_digits_4 using assms by (rule pad4_digits)



lemma split_dot_two:
  assumes "a \<noteq> of_char CHR ''.''" and "b \<noteq> of_char CHR ''.''"
  shows "split_dot (a # b # of_char CHR ''.'' # rest) = Some ([a, b], rest)"
  using assms by simp

lemma year_text_four: "1000 \<le> y \<Longrightarrow> year_text y = pad4 y"
  by (simp add: year_text_def)

lemma birthday_round_trip:
  assumes pat: "ascii_date_text t"
    and valid: "date_new (int_of_digits (drop 6 t)) (int_of_digits (take 2 (drop 3 t)))
                  (int_of_digits (take 2 t)) = Inr d"
    and four: "1000 \<le> year d"
  shows "Birthday_init t = Inr (Birthday (Some d)) \<and>
    Birthday_str (Birthday (Some d)) = t \<and>
    Birthday_init (Birthday_str (Birthday (Some d))) = Inr (Birthday (Some d))"
  using pat
proof (rule ascii_date_text_shape)
  fix d1 d2 m1 m2 y1 y2 y3 y4
  assume t: "t = [d1, d2, of_char CHR ''.'', m1, m2, of_char CHR ''.'', y1, y2, y3, y4]"
    and dg: "is_ascii_digit d1" "is_ascii_digit d2" "is_ascii_digit m1" "is_ascii_digit m2"
      "is_ascii_digit y1" "is_ascii_digit y2" "is_ascii_digit y3" "is_ascii_digit y4"
  define D where "D = int_of_digits [d1, d2]"
  define M where "M = int_of_digits [m1, m2]"
  define Y where "Y = int_of_digits [y1, y2, y3, y4]"
  from valid have dn: "date_new Y M D = Inr d"
    unfolding t D_def M_def Y_def by simp
  note b = date_new_Inr [OF dn]
  have day: "day_field [d1, d2]"
    using dg(1,2) b(4,5) unfolding D_def int_of_digits_2 by (rule day_field_two)
  have mon: "month_field [m1, m2]"
    using dg(3,4) b(2,3) unfolding M_def int_of_digits_2 by (rule month_field_two)
  have yr: "year_field [y1, y2, y3, y4]"
    using digit_facts(5) [OF dg(5)] digit_facts(5) [OF dg(6)] digit_facts(5) [OF dg(7)]
      digit_facts(5) [OF dg(8)]
    by (simp add: year_field_def)
  have s1: "split_dot t = Some ([d1, d2], [m1, m2, of_char CHR ''.'', y1, y2, y3, y4])"
    unfolding t using digit_facts(4) [OF dg(1)] digit_facts(4) [OF dg(2)]
    by (rule split_dot_two)
  have s2: "split_dot [m1, m2, of_char CHR ''.'', y1, y2, y3, y4]
      = Some ([m1, m2], [y1, y2, y3, y4])"
    using digit_facts(4) [OF dg(3)] digit_facts(4) [OF dg(4)] by (rule split_dot_two)
  have parse: "string_to_date t = Inr d"
    unfolding string_to_date_def strptime_dmY_def s1 using s2 day mon yr dn
    by (simp add: D_def M_def Y_def)
  have here: "date_pattern_here t"
    unfolding t date_pattern_here_def
    using digit_facts(5) [OF dg(1)] digit_facts(5) [OF dg(2)] digit_facts(5) [OF dg(3)]
      digit_facts(5) [OF dg(4)] digit_facts(5) [OF dg(5)] digit_facts(5) [OF dg(6)]
      digit_facts(5) [OF dg(7)] digit_facts(5) [OF dg(8)]
    by simp
  have search: "search_date_pattern t = Some t"
    using here unfolding t by simp
  have "length t = 10" unfolding t by simp
  then have "t \<noteq> lit ''None''" by (auto simp: lit_def)
  with search parse have init: "Birthday_init t = Inr (Birthday (Some d))"
    by (simp add: Birthday_init_def)
  from four have y4: "1000 \<le> Y" unfolding b(1) by simp
  have "date_to_string d = pad2 D @ lit ''.'' @ pad2 M @ lit ''.'' @ pad4 Y"
    unfolding b(1) using year_text_four [OF y4] by (simp add: date_to_string_def)
  also have "\<dots> = t"
    unfolding D_def M_def Y_def t
    by (simp add: pad2_int_of_digits pad4_int_of_digits dg lit_def)
  finally have fmt: "Birthday_str (Birthday (Some d)) = t"
    by (simp add: Birthday_str_def)
  from init fmt show ?thesis by simp
qed

lemma birthday_round_trip_example:
  "Birthday_init (lit ''29.02.2024'')
     = Inr (Birthday (Some \<lparr>year = 2024, month = 2, day = 29\<rparr>)) \<and>
   Birthday_str (Birthday (Some \<lparr>year = 2024, month = 2, day = 29\<rparr>)) = lit ''29.02.2024''"
  using birthday_round_trip [of "lit ''29.02.2024''" "\<lparr>year = 2024, month = 2, day = 29\<rparr>"]
  by (simp add: ascii_date_text_def text_eval)

end
